theory Spec2Isabelle
  imports Main "HOL-Library.Product_Lexorder" "HOL-Library.Multiset"
begin

section \<open>Text helpers\<close>

text \<open>
  A Python \<open>str\<close> is modelled as a \<open>string\<close>: one \<open>char\<close> per code point, for
  the code points U+0000 to U+00FF. \<open>len\<close> is \<open>length\<close>. An \<open>Optional[str]\<close> is a
  \<open>string option\<close>; Python's truth test \<open>if text\<close> holds for a present, non-empty string.
\<close>

definition truthy :: "string option \<Rightarrow> bool" where
  "truthy t = (case t of None \<Rightarrow> False | Some s \<Rightarrow> s \<noteq> [])"

text \<open>
  The character classes of the code points up to U+00FF: \<open>\w\<close> of the \<open>re\<close> module
  (letters, digits of every kind and the underscore), \<open>str.isspace\<close>, and the blanks
  \<open>int()\<close> skips around a numeral.
\<close>

definition is_word_char :: "char \<Rightarrow> bool" where
  "is_word_char c =
     (let n = (of_char c :: nat) in
        (48 \<le> n \<and> n \<le> 57) \<or> (65 \<le> n \<and> n \<le> 90) \<or> n = 95 \<or> (97 \<le> n \<and> n \<le> 122)
        \<or> n \<in> {170, 178, 179, 181, 185, 186, 188, 189, 190}
        \<or> (192 \<le> n \<and> n \<le> 214) \<or> (216 \<le> n \<and> n \<le> 246) \<or> (248 \<le> n \<and> n \<le> 255))"

definition is_space :: "char \<Rightarrow> bool" where
  "is_space c =
     (let n = (of_char c :: nat) in
        (9 \<le> n \<and> n \<le> 13) \<or> (28 \<le> n \<and> n \<le> 32) \<or> n = 133 \<or> n = 160)"

definition is_int_blank :: "char \<Rightarrow> bool" where
  "is_int_blank c =
     (let n = (of_char c :: nat) in (9 \<le> n \<and> n \<le> 13) \<or> n = 32 \<or> n = 133 \<or> n = 160)"

definition is_digit :: "char \<Rightarrow> bool" where
  "is_digit c = (let n = (of_char c :: nat) in 48 \<le> n \<and> n \<le> 57)"

definition lower_char :: "char \<Rightarrow> char" where
  "lower_char c =
     (let n = (of_char c :: nat) in
        if (65 \<le> n \<and> n \<le> 90) \<or> (192 \<le> n \<and> n \<le> 222 \<and> n \<noteq> 215)
        then char_of (n + 32) else c)"

definition lower :: "string \<Rightarrow> string" where
  "lower s = map lower_char s"

definition strip_with :: "(char \<Rightarrow> bool) \<Rightarrow> string \<Rightarrow> string" where
  "strip_with blank s = rev (dropWhile blank (rev (dropWhile blank s)))"

definition strip :: "string \<Rightarrow> string" where
  "strip s = strip_with is_space s"

definition startswith :: "string \<Rightarrow> string \<Rightarrow> bool" where
  "startswith s p = (take (length p) s = p)"

definition endswith :: "string \<Rightarrow> string \<Rightarrow> bool" where
  "endswith s p = (length p \<le> length s \<and> drop (length s - length p) s = p)"

text \<open>\<open>sub in s\<close>: \<open>sub\<close> occurs in \<open>s\<close> at some position.\<close>

fun contains :: "string \<Rightarrow> string \<Rightarrow> bool" where
  "contains [] sub = (sub = [])"
| "contains (c # cs) sub = (startswith (c # cs) sub \<or> contains cs sub)"

text \<open>\<open>s.split(d)\<close> for a one-character separator: never empty, \<open>''.split(d) = ['']\<close>.\<close>

fun split_on :: "char \<Rightarrow> string \<Rightarrow> string list" where
  "split_on d [] = [[]]"
| "split_on d (c # cs) =
     (let r = split_on d cs in if c = d then [] # r else (c # hd r) # tl r)"

text \<open>
  \<open>int(s)\<close> on a string: blanks around the numeral are skipped, one sign is allowed,
  then decimal digits, where single underscores may separate digits. Anything else is a
  \<open>ValueError\<close>, here \<open>None\<close>. (The interpreter's limit on the number of digits, 4300 by
  default, is far above the 64 bytes of a callback payload and is left out.)
\<close>

fun well_grouped :: "string \<Rightarrow> bool" where
  "well_grouped [] = False"
| "well_grouped [c] = is_digit c"
| "well_grouped (c # d # cs) =
     (is_digit c \<and> (if d = CHR ''_'' then well_grouped cs else well_grouped (d # cs)))"

definition digits_value :: "string \<Rightarrow> int" where
  "digits_value ds = foldl (\<lambda>a c. 10 * a + (int (of_char c) - 48)) 0 ds"

definition py_int :: "string \<Rightarrow> int option" where
  "py_int s =
     (let t = strip_with is_int_blank s;
          neg = (t \<noteq> [] \<and> hd t = CHR ''-'');
          body = (if t \<noteq> [] \<and> (hd t = CHR ''-'' \<or> hd t = CHR ''+'') then tl t else t)
      in if well_grouped body
         then Some ((if neg then - 1 else 1) * digits_value (filter (\<lambda>c. c \<noteq> CHR ''_'') body))
         else None)"

section \<open>utils.py: the scorer\<close>

definition SCORE_MENTION :: int where "SCORE_MENTION = 3"
definition SCORE_QUESTION :: int where "SCORE_QUESTION = 2"
definition SCORE_LONG_MESSAGE :: int where "SCORE_LONG_MESSAGE = 1"
definition SCORE_HIGH_PRIORITY_USER :: int where "SCORE_HIGH_PRIORITY_USER = 2"
definition MIN_LONG_MESSAGE_LENGTH :: nat where "MIN_LONG_MESSAGE_LENGTH = 100"

text \<open>
  \<open>calculate_priority_score\<close> starts from 0 and adds one weight per satisfied test, in
  the order of the source. The third test is \<open>message_text and len(message_text) > 100\<close>.
\<close>

definition calculate_priority_score :: "string option \<Rightarrow> bool \<Rightarrow> bool \<Rightarrow> bool \<Rightarrow> int" where
  "calculate_priority_score message_text has_mention is_question is_high_priority_user =
     (let score = 0;
          score = (if has_mention then score + SCORE_MENTION else score);
          score = (if is_question then score + SCORE_QUESTION else score);
          score = (if truthy message_text \<and> length (the message_text) > MIN_LONG_MESSAGE_LENGTH
                   then score + SCORE_LONG_MESSAGE else score);
          score = (if is_high_priority_user then score + SCORE_HIGH_PRIORITY_USER else score)
      in score)"

text \<open>The length of an optional text, as \<open>save_message\<close> computes \<open>message_length\<close>.\<close>

definition text_length :: "string option \<Rightarrow> nat" where
  "text_length t = (if truthy t then length (the t) else 0)"

section \<open>utils.py: the feature extractor\<close>

text \<open>
  \<open>re.search(r"@\w+", text)\<close> finds a match exactly when some \<open>@\<close> of the text is
  followed by a word character.
\<close>

fun search_mention :: "string \<Rightarrow> bool" where
  "search_mention [] = False"
| "search_mention (c # cs) =
     ((c = CHR ''@'' \<and> (case cs of [] \<Rightarrow> False | d # _ \<Rightarrow> is_word_char d)) \<or> search_mention cs)"

text \<open>
  \<open>detect_mention\<close>: no text or an empty text gives False. With a non-empty username
  the literal \<open>"@" + username\<close> is looked up in \<open>text.lower()\<close> (the username is used as
  it was passed), and the pattern is searched in the text as well.
\<close>

definition detect_mention :: "string option \<Rightarrow> string option \<Rightarrow> bool" where
  "detect_mention text username =
     (if \<not> truthy text then False
      else if truthy username
      then contains (lower (the text)) (''@'' @ the username) \<or> search_mention (the text)
      else search_mention (the text))"

definition question_starters :: "string list" where
  "question_starters =
     [''what'', ''when'', ''where'', ''why'', ''how'', ''who'', ''which'',
      ''is '', ''are '', ''do '', ''does '', ''can '', ''could '', ''would '', ''will '',
      ''should '', ''have '', ''has '', ''did '',
      ''que '', ''qual '', ''quem '', ''quando '', ''onde '', ''como '', ''por que'',
      ''voc'' @ [CHR 0xEA] @ '' '', ''voc'' @ [CHR 0xEA] @ ''s '']"

definition detect_question :: "string option \<Rightarrow> bool" where
  "detect_question text =
     (if \<not> truthy text then False
      else let t = strip (the text) in
        if endswith t ''?'' then True
        else let text_lower = lower t in
          list_ex (\<lambda>starter. startswith text_lower starter) question_starters)"

text \<open>
  \<open>generate_topic_summary\<close> returns None for no text and for a text shorter than 10
  characters; otherwise it asks the local summarizer inside a \<open>try\<close> whose every handler
  returns None. The outcome of that \<open>try\<close> block is the parameter \<open>outcome\<close>.
\<close>

definition generate_topic_summary :: "string option \<Rightarrow> string option \<Rightarrow> string option" where
  "generate_topic_summary outcome text =
     (if \<not> truthy text \<or> length (the text) < 10 then None else outcome)"

section \<open>The message ledger\<close>

text \<open>
  Modelled from the spec: the \<open>Message\<close> class of \<open>models.py\<close>, which is not among the
  sources. The columns are the ones the sources read and write; \<open>save_message\<close> leaves
  the lifecycle columns to their defaults, which the spec gives as flags false and the
  nullable values null. A \<open>datetime\<close> is an \<open>int\<close>, the microseconds since the epoch of
  the naive UTC value; \<open>timedelta(hours=h)\<close> is \<open>h * 3600000000\<close>. The range of years a
  \<open>datetime\<close> can hold is not modelled.
\<close>

record message =
  id_pk :: int
  telegram_message_id :: int
  chat_id :: int
  chat_title :: "string option"
  chat_type :: string
  user_id :: int
  user_name :: "string option"
  message_text :: "string option"
  timestamp :: int
  has_mention :: bool
  is_question :: bool
  message_length :: nat
  priority_score :: int
  topic_summary :: "string option"
  warning_sent :: bool
  warning_sent_at :: "int option"
  included_in_summary :: bool
  summary_sent_at :: "int option"
  label :: "string option"
  labeled_at :: "int option"

text \<open>The table is the list of its rows, in the order of insertion.\<close>

type_synonym ledger = "message list"

text \<open>
  Modelled from the spec: the identity of a new row is an ordinal assigned on creation
  (the primary key of \<open>models.py\<close>): one more than the largest identity in the table.
\<close>

definition next_id :: "ledger \<Rightarrow> int" where
  "next_id db = foldr max (map id_pk db) 0 + 1"

definition hours_delta :: "int \<Rightarrow> int" where
  "hours_delta h = h * 3600000000"

section \<open>config.py\<close>

text \<open>The \<open>SchedulerConfig\<close> fields the modelled functions read.\<close>

record config =
  summary_interval_hours :: int
  max_messages_per_summary :: nat
  min_priority_score :: int
  warning_threshold_score :: int

section \<open>Exceptions and observable effects\<close>

datatype exn =
    Value_error
  | Storage_error
  | Delivery_error
  | Multiple_results

datatype notice =
    Quiet int
  | All_clear int int
  | Error_notice exn

datatype reply =
    Not_found_reply
  | Confirmation string
  | Error_reply exn

text \<open>
  What a run does besides changing the ledger, in order: calls of the alert and digest
  collaborators and log records of failures.
\<close>

datatype event =
    Send_warning_called int int
  | Alert_send_called int
  | Alert_sent int
  | Simple_message notice
  | Summary_called "message list" int int int
  | Edit_text reply
  | Logged_warning
  | Logged_error exn

section \<open>userbot.py: the intake pipeline\<close>

text \<open>
  The outcomes of the collaborators during one \<open>save_message\<close>: the summarizer's answer,
  whether the INSERT commits, whether the bot application exists, whether
  \<open>bot.send_message\<close> returns, whether the UPDATE of the warning columns commits, and the
  clock read for \<open>warning_sent_at\<close>.
\<close>

record save_env =
  hint :: "string option"
  insert_ok :: bool
  bot_app_present :: bool
  alert_send_ok :: bool
  mark_ok :: bool
  now_warning :: int

text \<open>
  \<open>send_warning_for_message\<close>. The event \<open>Send_warning_called\<close> records that the
  function was entered, with the message id and score (the other arguments only feed
  the rendered text); \<open>Alert_send_called\<close> that \<open>bot.send_message\<close> was called with the
  alert; \<open>Alert_sent\<close> that this call returned. Without a bot application the function
  logs a warning and returns before the send. Every exception is caught and logged
  inside the function.
\<close>

definition send_warning_for_message :: "save_env \<Rightarrow> int \<Rightarrow> int \<Rightarrow> ledger \<Rightarrow> ledger \<times> event list" where
  "send_warning_for_message env message_id score db =
     (if \<not> bot_app_present env then (db, [Send_warning_called message_id score, Logged_warning])
      else if \<not> alert_send_ok env
      then (db, [Send_warning_called message_id score, Alert_send_called message_id,
                 Logged_error Delivery_error])
      else if \<not> mark_ok env
      then (db, [Send_warning_called message_id score, Alert_send_called message_id,
                 Alert_sent message_id, Logged_error Storage_error])
      else (map (\<lambda>m. if id_pk m = message_id
                      then m\<lparr>warning_sent := True, warning_sent_at := Some (now_warning env)\<rparr>
                      else m) db,
            [Send_warning_called message_id score, Alert_send_called message_id,
             Alert_sent message_id]))"

text \<open>The arguments of \<open>save_message\<close>.\<close>

record capture =
  cap_telegram_message_id :: int
  cap_chat_id :: int
  cap_chat_title :: "string option"
  cap_chat_type :: string
  cap_user_id :: int
  cap_user_name :: "string option"
  cap_message_text :: "string option"
  cap_timestamp :: int
  cap_client_username :: "string option"

text \<open>
  The \<open>Message\<close> object \<open>save_message\<close> builds: the features, the score and the topic
  hint, with the identity the INSERT gives it. \<open>hp\<close> is the cached set
  \<open>_high_priority_users\<close>.
\<close>

definition new_message :: "int set \<Rightarrow> save_env \<Rightarrow> capture \<Rightarrow> ledger \<Rightarrow> message" where
  "new_message hp env cap db =
     (let has_mention = detect_mention (cap_message_text cap) (cap_client_username cap);
          is_question = detect_question (cap_message_text cap);
          message_length = text_length (cap_message_text cap);
          is_high_priority = (cap_user_id cap \<in> hp);
          priority_score = calculate_priority_score (cap_message_text cap) has_mention
                             is_question is_high_priority;
          topic_summary = generate_topic_summary (hint env) (cap_message_text cap)
      in \<lparr>id_pk = next_id db,
          telegram_message_id = cap_telegram_message_id cap,
          chat_id = cap_chat_id cap,
          chat_title = cap_chat_title cap,
          chat_type = cap_chat_type cap,
          user_id = cap_user_id cap,
          user_name = cap_user_name cap,
          message_text = cap_message_text cap,
          timestamp = cap_timestamp cap,
          has_mention = has_mention,
          is_question = is_question,
          message_length = message_length,
          priority_score = priority_score,
          topic_summary = topic_summary,
          warning_sent = False,
          warning_sent_at = None,
          included_in_summary = False,
          summary_sent_at = None,
          label = None,
          labeled_at = None\<rparr>)"

text \<open>
  \<open>save_message\<close>: the row is committed first; a failure there is caught by the outer
  handler and logged, and nothing else happens. Then the score is compared with the
  warning threshold.
\<close>

definition save_message :: "config \<Rightarrow> int set \<Rightarrow> save_env \<Rightarrow> capture \<Rightarrow> ledger \<Rightarrow> ledger \<times> event list" where
  "save_message cfg hp env cap db =
     (let message = new_message hp env cap db in
      if \<not> insert_ok env then (db, [Logged_error Storage_error])
      else if priority_score message \<ge> warning_threshold_score cfg
      then send_warning_for_message env (id_pk message) (priority_score message) (db @ [message])
      else (db @ [message], []))"

section \<open>bot.py: the label resolver\<close>

text \<open>
  The outcomes around one callback: the clock read for \<open>labeled_at\<close>, whether the
  database session (select, update, commit) succeeds, and whether
  \<open>query.edit_message_text\<close> returns.
\<close>

record label_env =
  now_label :: int
  label_db_ok :: bool
  edit_ok :: bool

text \<open>
  The \<open>try\<close> block of \<open>handle_label_callback\<close> on the callback data. The result is the
  exception that leaves the block (if any), the ledger and the events. A failing session
  rolls back; the confirmation is edited in after the session has committed.
  \<open>scalar_one_or_none\<close> raises when several rows match.
\<close>

definition label_body :: "label_env \<Rightarrow> string \<Rightarrow> ledger \<Rightarrow> exn option \<times> ledger \<times> event list" where
  "label_body env data db =
     (let parts = split_on (CHR '':'') data in
      if length parts \<noteq> 3 \<or> parts ! 0 \<noteq> ''label'' then (None, db, [Logged_warning])
      else case py_int (parts ! 1) of
        None \<Rightarrow> (Some Value_error, db, [])
      | Some message_id \<Rightarrow>
          let label = parts ! 2 in
          if label \<notin> set [''high'', ''medium'', ''low''] then (None, db, [Logged_warning])
          else if \<not> label_db_ok env then (Some Storage_error, db, [])
          else (case filter (\<lambda>m. id_pk m = message_id) db of
                  [] \<Rightarrow> (if edit_ok env then None else Some Delivery_error, db,
                         [Edit_text Not_found_reply])
                | [message] \<Rightarrow>
                    (if edit_ok env then None else Some Delivery_error,
                     map (\<lambda>m. if id_pk m = message_id
                              then m\<lparr>label := Some label, labeled_at := Some (now_label env)\<rparr>
                              else m) db,
                     [Edit_text (Confirmation label)])
                | _ \<Rightarrow> (Some Multiple_results, db, [])))"

text \<open>
  \<open>handle_label_callback\<close>: the handler logs the exception and edits an error text in;
  that edit is not protected, so its failure leaves the function.
\<close>

definition handle_label_callback :: "label_env \<Rightarrow> string \<Rightarrow> ledger \<Rightarrow> exn option \<times> ledger \<times> event list" where
  "handle_label_callback env data db =
     (case label_body env data db of
        (None, db', evs) \<Rightarrow> (None, db', evs)
      | (Some e, db', evs) \<Rightarrow>
          (if edit_ok env then None else Some Delivery_error, db',
           evs @ [Logged_error e, Edit_text (Error_reply e)]))"

section \<open>scheduler.py: the batch selector\<close>

text \<open>
  The outcomes around one run: the three clock reads (in \<open>get_message_stats\<close>, for the
  cutoff of the selection, for \<open>summary_sent_at\<close>), whether the count queries succeed,
  whether the session of \<open>get_unlabeled_messages\<close> succeeds, whether \<open>_bot_app\<close> is set
  and whether the \<open>bot.send_message\<close> calls of the delivery return.
\<close>

record summary_env =
  now_stats :: int
  now_select :: int
  now_claim :: int
  stats_ok :: bool
  claim_ok :: bool
  bot_present :: bool
  send_ok :: bool

definition qualifies :: "config \<Rightarrow> int \<Rightarrow> message \<Rightarrow> bool" where
  "qualifies cfg cutoff_time m =
     (timestamp m \<ge> cutoff_time \<and> label m = None \<and> included_in_summary m = False
      \<and> priority_score m \<ge> min_priority_score cfg)"

text \<open>
  The SELECT: filter, order by score descending then timestamp descending, limit. Rows
  equal in both keep the order of the table (SQL leaves their order open). The limit is
  a natural number; a negative LIMIT, whose meaning depends on the database, is outside
  the model.
\<close>

definition select_unlabeled :: "config \<Rightarrow> int \<Rightarrow> nat \<Rightarrow> ledger \<Rightarrow> message list" where
  "select_unlabeled cfg cutoff_time limit db =
     take limit (sort_key (\<lambda>m. (- priority_score m, - timestamp m))
                          (filter (qualifies cfg cutoff_time) db))"

text \<open>The UPDATE of the rows whose id is among the selected ones.\<close>

definition mark_included :: "int list \<Rightarrow> int \<Rightarrow> ledger \<Rightarrow> ledger" where
  "mark_included message_ids now db =
     map (\<lambda>m. if id_pk m \<in> set message_ids
              then m\<lparr>included_in_summary := True, summary_sent_at := Some now\<rparr>
              else m) db"

text \<open>
  \<open>get_unlabeled_messages\<close>: the result is the list of selected objects and the ledger
  after the commit. The UPDATE runs only for a non-empty selection, in the session that
  loaded the objects, so it writes the two columns into the table and into the loaded
  objects that match (all of them do); the session keeps the objects as they are on
  commit (\<open>expire_on_commit=False\<close>). A failing session rolls back and the exception
  leaves the function.
\<close>

definition get_unlabeled_messages :: "config \<Rightarrow> summary_env \<Rightarrow> int \<Rightarrow> nat \<Rightarrow> ledger \<Rightarrow> exn + (message list \<times> ledger)" where
  "get_unlabeled_messages cfg env hours limit db =
     (let cutoff_time = now_select env - hours_delta hours in
      if \<not> claim_ok env then Inl Storage_error
      else let messages = select_unlabeled cfg cutoff_time limit db in
        if messages \<noteq> []
        then let message_ids = map id_pk messages in
          Inr (mark_included message_ids (now_claim env) messages,
               mark_included message_ids (now_claim env) db)
        else Inr (messages, db))"

definition get_message_stats :: "summary_env \<Rightarrow> int \<Rightarrow> ledger \<Rightarrow> exn + (int \<times> int)" where
  "get_message_stats env hours db =
     (let cutoff_time = now_stats env - hours_delta hours;
          recent = filter (\<lambda>m. timestamp m \<ge> cutoff_time) db
      in if \<not> stats_ok env then Inl Storage_error
         else Inr (int (length recent), int (length (remdups (map chat_id recent)))))"

text \<open>
  bot.py: \<open>send_simple_message\<close> sends only when \<open>_bot_app\<close> is set; \<open>send_summary\<close>
  reads \<open>_bot_app.bot\<close> first and then sends the header, the cards and the footer. The
  events record the calls.
\<close>

definition send_simple_message :: "summary_env \<Rightarrow> notice \<Rightarrow> exn option \<times> event list" where
  "send_simple_message env n =
     (if bot_present env \<and> \<not> send_ok env then Some Delivery_error else None,
      [Simple_message n])"

definition send_summary :: "summary_env \<Rightarrow> message list \<Rightarrow> int \<Rightarrow> int \<Rightarrow> int \<Rightarrow> exn option \<times> event list" where
  "send_summary env messages total_messages total_chats time_range_hours =
     (if \<not> bot_present env \<or> \<not> send_ok env then Some Delivery_error else None,
      [Summary_called messages total_messages total_chats time_range_hours])"

text \<open>The \<open>try\<close> block of \<open>generate_and_send_summary\<close>.\<close>

definition summary_body :: "config \<Rightarrow> summary_env \<Rightarrow> ledger \<Rightarrow> exn option \<times> ledger \<times> event list" where
  "summary_body cfg env db =
     (let hours = summary_interval_hours cfg;
          max_messages = max_messages_per_summary cfg
      in case get_message_stats env hours db of
           Inl e \<Rightarrow> (Some e, db, [])
         | Inr (total_messages, unique_chats) \<Rightarrow>
             if total_messages = 0
             then (case send_simple_message env (Quiet hours) of (r, evs) \<Rightarrow> (r, db, evs))
             else (case get_unlabeled_messages cfg env hours max_messages db of
                     Inl e \<Rightarrow> (Some e, db, [])
                   | Inr (messages, db') \<Rightarrow>
                       if messages = []
                       then (case send_simple_message env (All_clear hours total_messages) of
                               (r, evs) \<Rightarrow> (r, db', evs))
                       else (case send_summary env messages total_messages unique_chats hours of
                               (r, evs) \<Rightarrow> (r, db', evs))))"

text \<open>
  \<open>generate_and_send_summary\<close>: the handler logs the exception and tries to send an
  error notice, whose own failure is swallowed. The first component is the exception
  that leaves the function.
\<close>

definition generate_and_send_summary :: "config \<Rightarrow> summary_env \<Rightarrow> ledger \<Rightarrow> exn option \<times> ledger \<times> event list" where
  "generate_and_send_summary cfg env db =
     (case summary_body cfg env db of
        (None, db', evs) \<Rightarrow> (None, db', evs)
      | (Some e, db', evs) \<Rightarrow>
          (None, db', evs @ [Logged_error e, Simple_message (Error_notice e)]))"

section \<open>The operations on the ledger\<close>

text \<open>
  Every entry point of the sources that writes the message table: the capture of a
  message, a label callback and a summary run (timer, \<open>/summary\<close> command or manual
  trigger, which all call \<open>generate_and_send_summary\<close>).
\<close>

datatype operation =
    Save config "int set" save_env capture
  | Label label_env string
  | Summary config summary_env

fun run_operation :: "operation \<Rightarrow> ledger \<Rightarrow> ledger" where
  "run_operation (Save cfg hp env cap) db = fst (save_message cfg hp env cap db)"
| "run_operation (Label env data) db = fst (snd (handle_label_callback env data db))"
| "run_operation (Summary cfg env) db = fst (snd (generate_and_send_summary cfg env db))"

definition run_operations :: "operation list \<Rightarrow> ledger \<Rightarrow> ledger" where
  "run_operations ops db = fold run_operation ops db"

text \<open>The message with identity \<open>i\<close> is in the ledger and is digest-claimed.\<close>

definition claimed :: "ledger \<Rightarrow> int \<Rightarrow> bool" where
  "claimed db i =
     (list_ex (\<lambda>r. id_pk r = i) db \<and> list_all (\<lambda>r. id_pk r = i \<longrightarrow> included_in_summary r) db)"

section \<open>Concrete rows for the worked examples\<close>

text \<open>
  A stored row with the given identity, score and capture time, as \<open>save_message\<close>
  leaves it: nothing alerted, claimed or labeled.
\<close>

definition sample_message :: "int \<Rightarrow> int \<Rightarrow> int \<Rightarrow> message" where
  "sample_message i score ts =
     \<lparr>id_pk = i, telegram_message_id = 100 + i, chat_id = 7, chat_title = None,
      chat_type = ''private'', user_id = 42, user_name = None, message_text = Some ''hi'',
      timestamp = ts, has_mention = False, is_question = False, message_length = 2,
      priority_score = score, topic_summary = None, warning_sent = False,
      warning_sent_at = None, included_in_summary = False, summary_sent_at = None,
      label = None, labeled_at = None\<rparr>"

definition sample_config :: config where
  "sample_config =
     \<lparr>summary_interval_hours = 4, max_messages_per_summary = 2, min_priority_score = 1,
      warning_threshold_score = 5\<rparr>"

definition sample_capture :: "string \<Rightarrow> capture" where
  "sample_capture text =
     \<lparr>cap_telegram_message_id = 900, cap_chat_id = 7, cap_chat_title = None,
      cap_chat_type = ''private'', cap_user_id = 42, cap_user_name = None,
      cap_message_text = Some text, cap_timestamp = 50, cap_client_username = Some ''bob''\<rparr>"

definition sample_save_env :: save_env where
  "sample_save_env =
     \<lparr>hint = None, insert_ok = True, bot_app_present = True, alert_send_ok = True,
      mark_ok = True, now_warning = 60\<rparr>"

definition sample_summary_env :: summary_env where
  "sample_summary_env =
     \<lparr>now_stats = 14400000010, now_select = 14400000010, now_claim = 14400000020,
      stats_ok = True, claim_ok = True, bot_present = True, send_ok = True\<rparr>"

definition sample_ledger :: ledger where
  "sample_ledger =
     [sample_message 1 3 20, sample_message 2 0 30, sample_message 3 5 15, sample_message 4 3 40]"

text \<open>
  The sample ledger after a first selection has claimed the rows 3 and 4; two operations
  that follow (a label callback for row 1 and the capture of a fifth message, which is
  alerted); the ledger after them; and a later run whose window still covers row 4.
\<close>

definition sample_claimed_ledger :: ledger where
  "sample_claimed_ledger =
     [sample_message 1 3 20, sample_message 2 0 30,
      (sample_message 3 5 15)\<lparr>included_in_summary := True, summary_sent_at := Some 14400000020\<rparr>,
      (sample_message 4 3 40)\<lparr>included_in_summary := True, summary_sent_at := Some 14400000020\<rparr>]"

definition sample_operations :: "operation list" where
  "sample_operations =
     [Label \<lparr>now_label = 45, label_db_ok = True, edit_ok = True\<rparr> ''label:1:high'',
      Save sample_config {} sample_save_env (sample_capture ''@bob are you there?'')]"

definition sample_captured_row :: message where
  "sample_captured_row =
     (sample_message 5 5 50)
       \<lparr>telegram_message_id := 900, message_text := Some ''@bob are you there?'',
        has_mention := True, is_question := True, message_length := 19,
        warning_sent := True, warning_sent_at := Some 60\<rparr>"

definition sample_later_ledger :: ledger where
  "sample_later_ledger =
     [(sample_message 1 3 20)\<lparr>label := Some ''high'', labeled_at := Some 45\<rparr>,
      sample_message 2 0 30,
      (sample_message 3 5 15)\<lparr>included_in_summary := True, summary_sent_at := Some 14400000020\<rparr>,
      (sample_message 4 3 40)\<lparr>included_in_summary := True, summary_sent_at := Some 14400000020\<rparr>,
      sample_captured_row]"

definition sample_final_ledger :: ledger where
  "sample_final_ledger =
     [(sample_message 1 3 20)\<lparr>label := Some ''high'', labeled_at := Some 45\<rparr>,
      sample_message 2 0 30,
      (sample_message 3 5 15)\<lparr>included_in_summary := True, summary_sent_at := Some 14400000020\<rparr>,
      (sample_message 4 3 40)\<lparr>included_in_summary := True, summary_sent_at := Some 14400000020\<rparr>,
      sample_captured_row\<lparr>included_in_summary := True, summary_sent_at := Some 14400000070\<rparr>]"

definition sample_later_env :: summary_env where
  "sample_later_env = sample_summary_env\<lparr>now_select := 14400000030, now_claim := 14400000070\<rparr>"

text \<open>A ledger whose two rows are settled already: one labeled, one claimed earlier.\<close>

definition sample_settled_ledger :: ledger where
  "sample_settled_ledger =
     [(sample_message 1 3 20)\<lparr>label := Some ''low'', labeled_at := Some 25\<rparr>,
      (sample_message 2 4 30)\<lparr>included_in_summary := True, summary_sent_at := Some 35\<rparr>]"

text \<open>
  A run whose delivery fails, and a ledger whose only row is older than the window.
\<close>

definition sample_failing_env :: summary_env where
  "sample_failing_env = sample_summary_env\<lparr>send_ok := False\<rparr>"

definition sample_old_ledger :: ledger where
  "sample_old_ledger = [sample_message 1 3 5]"

text \<open>A capture during which the bot application is not there.\<close>

definition sample_no_bot_env :: save_env where
  "sample_no_bot_env = sample_save_env\<lparr>bot_app_present := False\<rparr>"

text \<open>The objects the first selection returns, and the one the later run returns.\<close>

definition sample_claimed_rows :: "message list" where
  "sample_claimed_rows =
     [(sample_message 3 5 15)\<lparr>included_in_summary := True, summary_sent_at := Some 14400000020\<rparr>,
      (sample_message 4 3 40)\<lparr>included_in_summary := True, summary_sent_at := Some 14400000020\<rparr>]"

definition sample_later_rows :: "message list" where
  "sample_later_rows =
     [sample_captured_row\<lparr>included_in_summary := True, summary_sent_at := Some 14400000070\<rparr>]"

section \<open>Properties\<close>

lemmas score_defs =
  calculate_priority_score_def SCORE_MENTION_def SCORE_QUESTION_def SCORE_LONG_MESSAGE_def
  SCORE_HIGH_PRIORITY_USER_def MIN_LONG_MESSAGE_LENGTH_def truthy_def text_length_def Let_def

text \<open>
  C4. The score is the sum of the four weights whose condition holds: 3 for a mention,
  2 for a question, 1 for a text longer than 100 characters, 2 for a high-priority
  sender. The function is a total HOL function of its four arguments, so it is
  deterministic and has no effect; with no flag set and a text of at most 100
  characters (or no text) it is 0.
\<close>

theorem calculate_priority_score_weights:
  "calculate_priority_score t m q h =
     3 * of_bool m + 2 * of_bool q + of_bool (text_length t > 100) + 2 * of_bool h
   \<and> (text_length t \<le> 100 \<longrightarrow> calculate_priority_score t False False False = 0)"
  by (cases t) (simp_all add: score_defs)

theorem calculate_priority_score_weights_witness:
  "text_length (Some ''hello'') \<le> 100 \<and>
   calculate_priority_score (Some ''hello'') False False False = 0"
  using calculate_priority_score_weights [of "Some ''hello''" False False False]
  by (simp add: text_length_def truthy_def)

text \<open>
  C9. Turning one of the flags mention, question or high-priority sender from false to
  true, with the text (hence its length) and the other flags fixed, never lowers the
  score.
\<close>

theorem calculate_priority_score_monotone:
  "calculate_priority_score t False q h \<le> calculate_priority_score t True q h
   \<and> calculate_priority_score t m False h \<le> calculate_priority_score t m True h
   \<and> calculate_priority_score t m q False \<le> calculate_priority_score t m q True"
  by (simp add: score_defs)









text \<open>
  The condition on the first character of the username is needed. At the text \<open>@-ab\<close>
  and the username \<open>-Ab\<close> the text contains \<open>@-Ab\<close> compared without regard to case,
  yet \<open>detect_mention\<close> answers False: only the text is lower-cased before the literal
  lookup, and the pattern needs a word character after the \<open>@\<close>.
\<close>

lemma detect_mention_literal_case:
  "contains (lower ''@-ab'') (lower (''@'' @ ''-Ab''))
   \<and> \<not> detect_mention (Some ''@-ab'') (Some ''-Ab'')"
  by code_simp

lemma foldr_max_upper: "x \<in> set xs \<Longrightarrow> x \<le> foldr max xs (0::int)"
  by (induction xs) auto

lemma next_id_fresh: "r \<in> set db \<Longrightarrow> id_pk r < next_id db"
  using foldr_max_upper [of "id_pk r" "map id_pk db"] by (auto simp: next_id_def)

lemma id_pk_new_message: "id_pk (new_message hp env cap db) = next_id db"
  by (simp add: new_message_def Let_def)

lemma priority_score_new_message:
  "priority_score (new_message hp env cap db) =
     calculate_priority_score (cap_message_text cap)
       (detect_mention (cap_message_text cap) (cap_client_username cap))
       (detect_question (cap_message_text cap)) (cap_user_id cap \<in> hp)"
  by (simp add: new_message_def Let_def)

lemma warning_sent_new_message: "\<not> warning_sent (new_message hp env cap db)"
  by (simp add: new_message_def Let_def)

lemma score_le_8: "calculate_priority_score t m q h \<le> 8"
  by (simp add: score_defs)

lemma save_message_failed:
  "\<not> insert_ok env \<Longrightarrow> save_message cfg hp env cap db = (db, [Logged_error Storage_error])"
  by (simp add: save_message_def Let_def)

lemma save_message_below:
  "insert_ok env \<Longrightarrow> \<not> warning_threshold_score cfg \<le> priority_score (new_message hp env cap db) \<Longrightarrow>
   save_message cfg hp env cap db = (db @ [new_message hp env cap db], [])"
  by (simp add: save_message_def Let_def)

lemma save_message_above:
  "insert_ok env \<Longrightarrow> warning_threshold_score cfg \<le> priority_score (new_message hp env cap db) \<Longrightarrow>
   save_message cfg hp env cap db =
     send_warning_for_message env (next_id db) (priority_score (new_message hp env cap db))
       (db @ [new_message hp env cap db])"
  by (simp add: save_message_def Let_def id_pk_new_message)

lemma map_fresh_id:
  "map (\<lambda>m. if id_pk m = next_id db then g m else m) db = db"
proof (rule map_idI)
  fix r assume "r \<in> set db"
  then have "id_pk r \<noteq> next_id db" using next_id_fresh [of r db] by simp
  then show "(if id_pk r = next_id db then g r else r) = r" by simp
qed

lemma save_message_ledger:
  assumes "insert_ok env"
  shows "fst (save_message cfg hp env cap db) =
     db @ [if warning_threshold_score cfg \<le> priority_score (new_message hp env cap db)
              \<and> bot_app_present env \<and> alert_send_ok env \<and> mark_ok env
           then (new_message hp env cap db)
                  \<lparr>warning_sent := True, warning_sent_at := Some (now_warning env)\<rparr>
           else new_message hp env cap db]"
  using assms
  by (simp add: save_message_def send_warning_for_message_def Let_def id_pk_new_message
      map_fresh_id)

lemma save_message_events:
  assumes "insert_ok env"
  shows "snd (save_message cfg hp env cap db) =
     (if \<not> warning_threshold_score cfg \<le> priority_score (new_message hp env cap db) then []
      else if \<not> bot_app_present env
      then [Send_warning_called (next_id db) (priority_score (new_message hp env cap db)),
            Logged_warning]
      else if \<not> alert_send_ok env
      then [Send_warning_called (next_id db) (priority_score (new_message hp env cap db)),
            Alert_send_called (next_id db), Logged_error Delivery_error]
      else if \<not> mark_ok env
      then [Send_warning_called (next_id db) (priority_score (new_message hp env cap db)),
            Alert_send_called (next_id db), Alert_sent (next_id db), Logged_error Storage_error]
      else [Send_warning_called (next_id db) (priority_score (new_message hp env cap db)),
            Alert_send_called (next_id db), Alert_sent (next_id db)])"
  using assms
  by (simp add: save_message_def send_warning_for_message_def Let_def id_pk_new_message)

text \<open>
  C5 fails on the code when the bot application is not there: the captured message
  scores 5, the threshold is 5, and \<open>send_warning_for_message\<close> logs a warning and
  returns; \<open>bot.send_message\<close> is never called, so no alert is dispatched.
\<close>

theorem save_message_no_bot_counterexample:
  "warning_threshold_score sample_config
     \<le> priority_score (new_message {} sample_no_bot_env (sample_capture ''@bob are you there?'') [])
   \<and> snd (save_message sample_config {} sample_no_bot_env (sample_capture ''@bob are you there?'') [])
       = [Send_warning_called 1 5, Logged_warning]"
  by code_simp

text \<open>
  C5 as amended. When the row of a captured message is committed,
  \<open>send_warning_for_message\<close> is entered for it exactly when its score is at least the
  warning threshold (so at the threshold itself, and not one below);
  \<open>bot.send_message\<close> is called with the alert exactly when moreover the bot
  application is there; the alert is sent exactly when moreover that call returns; and
  the stored row has \<open>warning_sent\<close> set exactly when the alert was sent and the UPDATE
  of the flag committed, hence only after the send succeeded.
\<close>

theorem save_message_alert_dispatch:
  assumes "insert_ok env"
  shows "(Send_warning_called (next_id db) (priority_score (new_message hp env cap db))
            \<in> set (snd (save_message cfg hp env cap db))
          \<longleftrightarrow> warning_threshold_score cfg \<le> priority_score (new_message hp env cap db))
   \<and> (Alert_send_called (next_id db) \<in> set (snd (save_message cfg hp env cap db))
          \<longleftrightarrow> warning_threshold_score cfg \<le> priority_score (new_message hp env cap db)
              \<and> bot_app_present env)
   \<and> (Alert_sent (next_id db) \<in> set (snd (save_message cfg hp env cap db))
          \<longleftrightarrow> warning_threshold_score cfg \<le> priority_score (new_message hp env cap db)
              \<and> bot_app_present env \<and> alert_send_ok env)
   \<and> (\<exists>r \<in> set (fst (save_message cfg hp env cap db)). id_pk r = next_id db)
   \<and> (\<forall>r \<in> set (fst (save_message cfg hp env cap db)).
        id_pk r = next_id db \<longrightarrow>
          (warning_sent r
           \<longleftrightarrow> warning_threshold_score cfg \<le> priority_score (new_message hp env cap db)
               \<and> bot_app_present env \<and> alert_send_ok env \<and> mark_ok env))"
proof -
  let ?msg = "new_message hp env cap db"
  have fresh: "id_pk r \<noteq> next_id db" if "r \<in> set db" for r
    using next_id_fresh [OF that] by simp
  have row: "\<exists>r \<in> set (fst (save_message cfg hp env cap db)). id_pk r = next_id db"
    unfolding save_message_ledger [OF assms] by (simp add: id_pk_new_message)
  have flag: "warning_sent r
           \<longleftrightarrow> warning_threshold_score cfg \<le> priority_score ?msg
               \<and> bot_app_present env \<and> alert_send_ok env \<and> mark_ok env"
    if "r \<in> set (fst (save_message cfg hp env cap db))" "id_pk r = next_id db" for r
    using that fresh unfolding save_message_ledger [OF assms]
    by (auto simp: warning_sent_new_message split: if_splits)
  have called: "Send_warning_called (next_id db) (priority_score ?msg)
            \<in> set (snd (save_message cfg hp env cap db))
          \<longleftrightarrow> warning_threshold_score cfg \<le> priority_score ?msg"
    unfolding save_message_events [OF assms] by simp
  have attempted: "Alert_send_called (next_id db) \<in> set (snd (save_message cfg hp env cap db))
          \<longleftrightarrow> warning_threshold_score cfg \<le> priority_score ?msg \<and> bot_app_present env"
    unfolding save_message_events [OF assms] by simp
  have sent: "Alert_sent (next_id db) \<in> set (snd (save_message cfg hp env cap db))
          \<longleftrightarrow> warning_threshold_score cfg \<le> priority_score ?msg
              \<and> bot_app_present env \<and> alert_send_ok env"
    unfolding save_message_events [OF assms] by simp
  from called attempted sent row flag show ?thesis by blast
qed

theorem save_message_alert_dispatch_witness:
  "insert_ok sample_save_env \<and> bot_app_present sample_save_env \<and> alert_send_ok sample_save_env
   \<and> warning_threshold_score sample_config = 5
   \<and> priority_score (new_message {} sample_save_env (sample_capture ''@bob are you there?'') []) = 5
   \<and> Alert_send_called 1
       \<in> set (snd (save_message sample_config {} sample_save_env (sample_capture ''@bob are you there?'') []))
   \<and> Alert_sent 1
       \<in> set (snd (save_message sample_config {} sample_save_env (sample_capture ''@bob are you there?'') []))
   \<and> map warning_sent (fst (save_message sample_config {} sample_save_env
                             (sample_capture ''@bob are you there?'') [])) = [True]
   \<and> priority_score (new_message {} sample_save_env (sample_capture ''@bob see you there'') []) = 3
   \<and> Send_warning_called 1 3
       \<notin> set (snd (save_message sample_config {} sample_save_env (sample_capture ''@bob see you there'') []))
   \<and> Alert_sent 1
       \<notin> set (snd (save_message sample_config {} sample_save_env (sample_capture ''@bob see you there'') []))"
proof -
  have e: "insert_ok sample_save_env" "bot_app_present sample_save_env"
    "alert_send_ok sample_save_env" "mark_ok sample_save_env"
    by (simp_all add: sample_save_env_def)
  have n: "next_id [] = 1" by (simp add: next_id_def)
  have s1: "priority_score (new_message {} sample_save_env (sample_capture ''@bob are you there?'') []) = 5"
    unfolding priority_score_new_message by code_simp
  have s2: "priority_score (new_message {} sample_save_env (sample_capture ''@bob see you there'') []) = 3"
    unfolding priority_score_new_message by code_simp
  have t: "warning_threshold_score sample_config = 5" by (simp add: sample_config_def)
  have f: "map warning_sent (fst (save_message sample_config {} sample_save_env
                             (sample_capture ''@bob are you there?'') [])) = [True]"
    by code_simp
  show ?thesis
    using save_message_alert_dispatch [OF e(1), of "[]" "{}" "sample_capture ''@bob are you there?''" sample_config]
      save_message_alert_dispatch [OF e(1), of "[]" "{}" "sample_capture ''@bob see you there''" sample_config]
    by (simp add: e n s1 s2 t f)
qed

text \<open>
  C10. The score is at most 8. Hence with a warning threshold above 8 no capture ever
  reaches \<open>send_warning_for_message\<close> and no alert is sent.
\<close>

theorem score_ceiling:
  "calculate_priority_score t m q h \<le> 8
   \<and> (8 < warning_threshold_score cfg \<longrightarrow>
        (\<forall>i s. Send_warning_called i s \<notin> set (snd (save_message cfg hp env cap db)))
        \<and> (\<forall>i. Alert_sent i \<notin> set (snd (save_message cfg hp env cap db))))"
proof -
  have "priority_score (new_message hp env cap db) \<le> 8"
    unfolding priority_score_new_message by (rule score_le_8)
  then have "save_message cfg hp env cap db = (db, [Logged_error Storage_error])
      \<or> save_message cfg hp env cap db = (db @ [new_message hp env cap db], [])"
    if "8 < warning_threshold_score cfg"
    using that save_message_failed [of env cfg hp cap db] save_message_below [of env cfg hp cap db]
    by (cases "insert_ok env") auto
  then show ?thesis
    using score_le_8 [of t m q h] by auto
qed

theorem score_ceiling_witness:
  "8 < warning_threshold_score (sample_config\<lparr>warning_threshold_score := 9\<rparr>)
   \<and> (\<forall>i s. Send_warning_called i s \<notin> set (snd (save_message (sample_config\<lparr>warning_threshold_score := 9\<rparr>) {42}
          sample_save_env (sample_capture ''@bob are you there?'') [])))"
  using score_ceiling [of "None" False False False "sample_config\<lparr>warning_threshold_score := 9\<rparr>" "{42}"
      sample_save_env "sample_capture ''@bob are you there?''" "[]"]
  by (simp add: sample_config_def)

lemma split_on_no_sep: "d \<notin> set s \<Longrightarrow> split_on d s = [s]"
  by (induction s) (auto simp: Let_def)

lemma split_on_append: "d \<notin> set s \<Longrightarrow> split_on d (s @ d # t) = s # split_on d t"
  by (induction s) (auto simp: Let_def)

lemma split_label_data:
  assumes "CHR '':'' \<notin> set idstr" "CHR '':'' \<notin> set lbl"
  shows "split_on (CHR '':'') (''label:'' @ idstr @ '':'' @ lbl) = [''label'', idstr, lbl]"
proof -
  have "split_on (CHR '':'') (''label'' @ CHR '':'' # (idstr @ CHR '':'' # lbl))
      = ''label'' # split_on (CHR '':'') (idstr @ CHR '':'' # lbl)"
    by (rule split_on_append) simp
  also have "split_on (CHR '':'') (idstr @ CHR '':'' # lbl) = idstr # split_on (CHR '':'') lbl"
    using assms(1) by (rule split_on_append)
  also have "split_on (CHR '':'') lbl = [lbl]"
    using assms(2) by (rule split_on_no_sep)
  finally show ?thesis by simp
qed

lemma label_body_found:
  assumes "label_db_ok env"
    and "lbl \<in> {''high'', ''medium'', ''low''}"
    and "py_int idstr = Some i" and "CHR '':'' \<notin> set idstr"
    and "filter (\<lambda>m. id_pk m = i) db = [row]"
  shows "label_body env (''label:'' @ idstr @ '':'' @ lbl) db =
     (if edit_ok env then None else Some Delivery_error,
      map (\<lambda>m. if id_pk m = i then m\<lparr>label := Some lbl, labeled_at := Some (now_label env)\<rparr> else m) db,
      [Edit_text (Confirmation lbl)])"
proof -
  have "CHR '':'' \<notin> set lbl" using assms(2) by auto
  then have parts: "split_on (CHR '':'') (''label:'' @ idstr @ '':'' @ lbl) = [''label'', idstr, lbl]"
    using assms(4) split_label_data by blast
  show ?thesis
    unfolding label_body_def parts using assms(1,2,3,5) by (auto simp: Let_def)
qed

text \<open>
  C1 fails on the code: the row 1 is labeled \<open>high\<close> at time 10, and the callback
  \<open>label:1:low\<close> at time 20 stores \<open>low\<close> and 20 and confirms \<open>low\<close>.
\<close>

theorem handle_label_callback_relabel_counterexample:
  "label ((sample_message 1 3 5)\<lparr>label := Some ''high'', labeled_at := Some 10\<rparr>) \<noteq> None
   \<and> handle_label_callback \<lparr>now_label = 20, label_db_ok = True, edit_ok = True\<rparr> ''label:1:low''
        [(sample_message 1 3 5)\<lparr>label := Some ''high'', labeled_at := Some 10\<rparr>]
      = (None, [(sample_message 1 3 5)\<lparr>label := Some ''low'', labeled_at := Some 20\<rparr>],
         [Edit_text (Confirmation ''low'')])"
  by (simp add: handle_label_callback_def label_body_def sample_message_def Let_def py_int_def
      strip_with_def is_int_blank_def is_digit_def digits_value_def)

text \<open>
  C1 as amended. For a message that is in the ledger, labeled already or not, a
  well-formed request \<open>label:<id>:<label>\<close> with one of the three labels, whose database
  session succeeds, stores the requested label and the time of the request in the row
  with that id, leaves every other row as it was, and the text edited in confirms the
  requested label. The stored label is therefore kept only if the request repeats it.
\<close>

theorem handle_label_callback_overwrites:
  assumes "label_db_ok env"
    and "lbl \<in> {''high'', ''medium'', ''low''}"
    and "py_int idstr = Some i" and "CHR '':'' \<notin> set idstr"
    and "filter (\<lambda>m. id_pk m = i) db = [row]"
  shows "fst (snd (handle_label_callback env (''label:'' @ idstr @ '':'' @ lbl) db)) =
           map (\<lambda>m. if id_pk m = i
                    then m\<lparr>label := Some lbl, labeled_at := Some (now_label env)\<rparr> else m) db
         \<and> Edit_text (Confirmation lbl)
             \<in> set (snd (snd (handle_label_callback env (''label:'' @ idstr @ '':'' @ lbl) db)))"
  unfolding handle_label_callback_def label_body_found [OF assms]
  by (simp split: option.splits)

theorem handle_label_callback_overwrites_witness:
  "label_db_ok \<lparr>now_label = 20, label_db_ok = True, edit_ok = True\<rparr>
   \<and> ''medium'' \<in> {''high'', ''medium'', ''low''}
   \<and> py_int ''2'' = Some 2 \<and> CHR '':'' \<notin> set ''2''
   \<and> filter (\<lambda>m. id_pk m = 2) [sample_message 1 3 5, (sample_message 2 4 6)\<lparr>label := Some ''high''\<rparr>]
       = [(sample_message 2 4 6)\<lparr>label := Some ''high''\<rparr>]
   \<and> fst (snd (handle_label_callback \<lparr>now_label = 20, label_db_ok = True, edit_ok = True\<rparr>
          (''label:'' @ ''2'' @ '':'' @ ''medium'')
          [sample_message 1 3 5, (sample_message 2 4 6)\<lparr>label := Some ''high''\<rparr>]))
       = [sample_message 1 3 5,
          (sample_message 2 4 6)\<lparr>label := Some ''medium'', labeled_at := Some 20\<rparr>]"
proof -
  let ?env = "\<lparr>now_label = 20, label_db_ok = True, edit_ok = True\<rparr>"
  let ?db = "[sample_message 1 3 5, (sample_message 2 4 6)\<lparr>label := Some ''high''\<rparr>]"
  have h1: "label_db_ok ?env" by simp
  have h2: "''medium'' \<in> {''high'', ''medium'', ''low''}" by simp
  have h3: "py_int ''2'' = Some 2"
    by (simp add: py_int_def strip_with_def is_int_blank_def is_digit_def digits_value_def)
  have h4: "CHR '':'' \<notin> set ''2''" by simp
  have h5: "filter (\<lambda>m. id_pk m = 2) ?db = [(sample_message 2 4 6)\<lparr>label := Some ''high''\<rparr>]"
    by (simp add: sample_message_def)
  show ?thesis
    using handle_label_callback_overwrites [OF h1 h2 h3 h4 h5] h1 h2 h3 h4 h5
    by (simp add: sample_message_def)
qed

lemma qualifies_iff:
  "qualifies cfg c m \<longleftrightarrow>
     c \<le> timestamp m \<and> label m = None \<and> \<not> included_in_summary m
     \<and> min_priority_score cfg \<le> priority_score m"
  by (simp add: qualifies_def)

lemma digest_key_le:
  "((- priority_score a, - timestamp a) \<le> (- priority_score b, - timestamp b)) \<longleftrightarrow>
     (priority_score a > priority_score b
      \<or> (priority_score a = priority_score b \<and> timestamp a \<ge> timestamp b))"
  by (auto simp: less_eq_prod_def)

lemma sorted_digest_order:
  "sorted_wrt (\<lambda>a b. priority_score a > priority_score b
                     \<or> (priority_score a = priority_score b \<and> timestamp a \<ge> timestamp b))
     (sort_key (\<lambda>m. (- priority_score m, - timestamp m)) xs)"
proof -
  have "sorted (map (\<lambda>m. (- priority_score m, - timestamp m))
                 (sort_key (\<lambda>m. (- priority_score m, - timestamp m)) xs))"
    by (rule sorted_sort_key)
  then have "sorted_wrt (\<lambda>a b. (- priority_score a, - timestamp a) \<le> (- priority_score b, - timestamp b))
                 (sort_key (\<lambda>m. (- priority_score m, - timestamp m)) xs)"
    unfolding sorted_map .
  then show ?thesis
    unfolding digest_key_le .
qed

lemma select_unlabeled_subset:
  "m \<in> set (select_unlabeled cfg c n db) \<Longrightarrow> m \<in> set db \<and> qualifies cfg c m"
  by (auto simp: select_unlabeled_def dest: in_set_takeD)

lemma mark_included_image:
  "mark_included (map id_pk sel) now db =
     map (\<lambda>m. if id_pk m \<in> id_pk ` set sel
              then m\<lparr>included_in_summary := True, summary_sent_at := Some now\<rparr> else m) db"
  by (simp add: mark_included_def)

lemma mark_included_selected:
  "mark_included (map id_pk sel) now sel =
     map (\<lambda>m. m\<lparr>included_in_summary := True, summary_sent_at := Some now\<rparr>) sel"
  by (simp add: mark_included_def)

lemma mark_included_none: "mark_included [] now db = db"
  by (simp add: mark_included_def)

lemma get_unlabeled_messages_ok:
  assumes "claim_ok env"
  shows "get_unlabeled_messages cfg env H N db =
     Inr (map (\<lambda>m. m\<lparr>included_in_summary := True, summary_sent_at := Some (now_claim env)\<rparr>)
            (select_unlabeled cfg (now_select env - hours_delta H) N db),
          map (\<lambda>m. if id_pk m \<in> id_pk ` set (select_unlabeled cfg (now_select env - hours_delta H) N db)
                   then m\<lparr>included_in_summary := True, summary_sent_at := Some (now_claim env)\<rparr>
                   else m) db)"
proof (cases "select_unlabeled cfg (now_select env - hours_delta H) N db = []")
  case True
  then show ?thesis
    using assms by (simp add: get_unlabeled_messages_def Let_def)
next
  case False
  then show ?thesis
    using assms
    by (simp add: get_unlabeled_messages_def Let_def mark_included_selected mark_included_image)
qed

lemma get_unlabeled_messages_Inr:
  assumes "get_unlabeled_messages cfg env H N db = Inr (sel, db1)"
  shows "sel = map (\<lambda>m. m\<lparr>included_in_summary := True, summary_sent_at := Some (now_claim env)\<rparr>)
                 (select_unlabeled cfg (now_select env - hours_delta H) N db)"
    and "db1 = mark_included (map id_pk (select_unlabeled cfg (now_select env - hours_delta H) N db))
                 (now_claim env) db"
proof -
  have ok: "claim_ok env"
    using assms by (cases "claim_ok env") (simp_all add: get_unlabeled_messages_def Let_def)
  from get_unlabeled_messages_ok [OF ok, of cfg H N db] assms
  show "sel = map (\<lambda>m. m\<lparr>included_in_summary := True, summary_sent_at := Some (now_claim env)\<rparr>)
                 (select_unlabeled cfg (now_select env - hours_delta H) N db)"
    and "db1 = mark_included (map id_pk (select_unlabeled cfg (now_select env - hours_delta H) N db))
                 (now_claim env) db"
    by (simp_all add: mark_included_image)
qed

lemma get_unlabeled_messages_empty:
  assumes "get_unlabeled_messages cfg env H N db = Inr ([], db1)"
  shows "db1 = db"
proof -
  have "select_unlabeled cfg (now_select env - hours_delta H) N db = []"
    using get_unlabeled_messages_Inr(1) [OF assms] by simp
  then show ?thesis
    using get_unlabeled_messages_Inr(2) [OF assms] by (simp add: mark_included_none)
qed

lemma id_in_selected_iff:
  assumes "distinct (map id_pk db)" "set sel \<subseteq> set db" "m \<in> set db"
  shows "id_pk m \<in> id_pk ` set sel \<longleftrightarrow> m \<in> set sel"
proof
  assume "id_pk m \<in> id_pk ` set sel"
  then obtain r where r: "r \<in> set sel" "id_pk r = id_pk m" by auto
  then have "r \<in> set db" using assms(2) by auto
  then have "r = m"
    using assms(1,3) r(2) by (meson distinct_map inj_onD)
  then show "m \<in> set sel" using r(1) by simp
qed auto

text \<open>
  C2. When its database session succeeds, \<open>get_unlabeled_messages\<close> returns the first
  \<open>N\<close> entries of a list \<open>full\<close> that holds exactly the rows captured at or after the
  cutoff \<open>now - H\<close> hours, with no label, not yet included in a summary and with a score
  of at least the configured minimum, ordered by score descending and, for equal scores,
  by capture time descending. The objects it returns carry the claim: in each
  \<open>included_in_summary\<close> is set and \<open>summary_sent_at\<close> is the claim time. The ledger
  after the call is the ledger before it with the same two columns set in the rows whose
  id was returned and nothing else changed; since ids are unique these are exactly the
  returned rows.
\<close>

theorem get_unlabeled_messages_selection:
  assumes "claim_ok env"
  shows "\<exists>full.
     mset full = mset (filter (\<lambda>m. now_select env - hours_delta H \<le> timestamp m \<and> label m = None
                                   \<and> \<not> included_in_summary m
                                   \<and> min_priority_score cfg \<le> priority_score m) db)
   \<and> sorted_wrt (\<lambda>a b. priority_score a > priority_score b
                        \<or> (priority_score a = priority_score b \<and> timestamp a \<ge> timestamp b)) full
   \<and> get_unlabeled_messages cfg env H N db =
       Inr (map (\<lambda>m. m\<lparr>included_in_summary := True, summary_sent_at := Some (now_claim env)\<rparr>)
              (take N full),
            map (\<lambda>m. if id_pk m \<in> id_pk ` set (take N full)
                     then m\<lparr>included_in_summary := True, summary_sent_at := Some (now_claim env)\<rparr>
                     else m) db)
   \<and> (distinct (map id_pk db) \<longrightarrow>
        (\<forall>m \<in> set db. id_pk m \<in> id_pk ` set (take N full) \<longleftrightarrow> m \<in> set (take N full)))"
proof -
  let ?c = "now_select env - hours_delta H"
  let ?full = "sort_key (\<lambda>m. (- priority_score m, - timestamp m)) (filter (qualifies cfg ?c) db)"
  have sel: "select_unlabeled cfg ?c N db = take N ?full"
    by (simp add: select_unlabeled_def)
  have 1: "mset ?full = mset (filter (\<lambda>m. ?c \<le> timestamp m \<and> label m = None
                                   \<and> \<not> included_in_summary m
                                   \<and> min_priority_score cfg \<le> priority_score m) db)"
    by (simp add: qualifies_iff)
  have 2: "sorted_wrt (\<lambda>a b. priority_score a > priority_score b
                        \<or> (priority_score a = priority_score b \<and> timestamp a \<ge> timestamp b)) ?full"
    by (rule sorted_digest_order)
  have 3: "get_unlabeled_messages cfg env H N db =
       Inr (map (\<lambda>m. m\<lparr>included_in_summary := True, summary_sent_at := Some (now_claim env)\<rparr>)
              (take N ?full),
            map (\<lambda>m. if id_pk m \<in> id_pk ` set (take N ?full)
                     then m\<lparr>included_in_summary := True, summary_sent_at := Some (now_claim env)\<rparr>
                     else m) db)"
    using get_unlabeled_messages_ok [OF assms, of cfg H N db] unfolding sel .
  have sub: "set (take N ?full) \<subseteq> set db"
    using select_unlabeled_subset [of _ cfg ?c N db] unfolding sel by blast
  have 4: "distinct (map id_pk db) \<longrightarrow>
        (\<forall>m \<in> set db. id_pk m \<in> id_pk ` set (take N ?full) \<longleftrightarrow> m \<in> set (take N ?full))"
    using id_in_selected_iff [OF _ sub] by blast
  from 1 2 3 4 show ?thesis by blast
qed

lemma get_unlabeled_messages_sample:
  "get_unlabeled_messages sample_config sample_summary_env 4 2 sample_ledger =
     Inr ([(sample_message 3 5 15)\<lparr>included_in_summary := True, summary_sent_at := Some 14400000020\<rparr>,
           (sample_message 4 3 40)\<lparr>included_in_summary := True, summary_sent_at := Some 14400000020\<rparr>],
          [sample_message 1 3 20, sample_message 2 0 30,
           (sample_message 3 5 15)\<lparr>included_in_summary := True, summary_sent_at := Some 14400000020\<rparr>,
           (sample_message 4 3 40)\<lparr>included_in_summary := True, summary_sent_at := Some 14400000020\<rparr>])"
  by code_simp

theorem get_unlabeled_messages_selection_witness:
  "claim_ok sample_summary_env \<and> distinct (map id_pk sample_ledger)
   \<and> (\<exists>full.
     mset full = mset (filter (\<lambda>m. now_select sample_summary_env - hours_delta 4 \<le> timestamp m
                                   \<and> label m = None \<and> \<not> included_in_summary m
                                   \<and> min_priority_score sample_config \<le> priority_score m) sample_ledger)
   \<and> sorted_wrt (\<lambda>a b. priority_score a > priority_score b
                        \<or> (priority_score a = priority_score b \<and> timestamp a \<ge> timestamp b)) full
   \<and> get_unlabeled_messages sample_config sample_summary_env 4 2 sample_ledger =
       Inr (map (\<lambda>m. m\<lparr>included_in_summary := True,
                        summary_sent_at := Some (now_claim sample_summary_env)\<rparr>) (take 2 full),
            map (\<lambda>m. if id_pk m \<in> id_pk ` set (take 2 full)
                     then m\<lparr>included_in_summary := True,
                            summary_sent_at := Some (now_claim sample_summary_env)\<rparr>
                     else m) sample_ledger)
   \<and> (\<forall>m \<in> set sample_ledger. id_pk m \<in> id_pk ` set (take 2 full) \<longleftrightarrow> m \<in> set (take 2 full)))
   \<and> get_unlabeled_messages sample_config sample_summary_env 4 2 sample_ledger =
     Inr ([(sample_message 3 5 15)\<lparr>included_in_summary := True, summary_sent_at := Some 14400000020\<rparr>,
           (sample_message 4 3 40)\<lparr>included_in_summary := True, summary_sent_at := Some 14400000020\<rparr>],
          [sample_message 1 3 20, sample_message 2 0 30,
           (sample_message 3 5 15)\<lparr>included_in_summary := True, summary_sent_at := Some 14400000020\<rparr>,
           (sample_message 4 3 40)\<lparr>included_in_summary := True, summary_sent_at := Some 14400000020\<rparr>])"
proof -
  have h: "claim_ok sample_summary_env" by (simp add: sample_summary_env_def)
  have d: "distinct (map id_pk sample_ledger)" by (simp add: sample_ledger_def sample_message_def)
  from get_unlabeled_messages_selection [OF h, of 4 sample_config sample_ledger 2] h d
    get_unlabeled_messages_sample
  show ?thesis by blast
qed

lemma claimed_iff:
  "claimed db i \<longleftrightarrow>
     (\<exists>r \<in> set db. id_pk r = i) \<and> (\<forall>r \<in> set db. id_pk r = i \<longrightarrow> included_in_summary r)"
  by (simp add: claimed_def list_ex_iff list_all_iff)

lemma claimed_map:
  assumes f_id: "\<And>r. id_pk (f r) = id_pk r"
    and f_inc: "\<And>r. included_in_summary r \<Longrightarrow> included_in_summary (f r)"
    and c: "claimed db i"
  shows "claimed (map f db) i"
proof -
  obtain r where r: "r \<in> set db" "id_pk r = i"
    using c unfolding claimed_iff by blast
  have ex: "\<exists>x \<in> set (map f db). id_pk x = i"
    using r f_id by (intro bexI [of _ "f r"]) simp_all
  have all: "included_in_summary x" if "x \<in> set (map f db)" "id_pk x = i" for x
  proof -
    from that(1) obtain y where y: "y \<in> set db" "x = f y"
      unfolding set_map by blast
    then have "id_pk y = i" using that(2) f_id by simp
    then have "included_in_summary y" using c y(1) unfolding claimed_iff by blast
    then show ?thesis using y(2) f_inc by simp
  qed
  show ?thesis unfolding claimed_iff using ex all by blast
qed

lemma claimed_append_new:
  assumes "claimed db i"
  shows "claimed (db @ [new_message hp env cap db]) i"
proof -
  obtain r where r: "r \<in> set db" "id_pk r = i"
    using assms unfolding claimed_iff by blast
  then have "i < next_id db" using next_id_fresh by blast
  then have "id_pk (new_message hp env cap db) \<noteq> i"
    by (simp add: id_pk_new_message)
  then show ?thesis
    using assms unfolding claimed_iff by auto
qed

lemma claimed_send_warning:
  assumes "claimed db i"
  shows "claimed (fst (send_warning_for_message env j s db)) i"
proof -
  have "claimed (map (\<lambda>m. if id_pk m = j
                      then m\<lparr>warning_sent := True, warning_sent_at := Some (now_warning env)\<rparr>
                      else m) db) i"
    using _ _ assms by (rule claimed_map) simp_all
  then show ?thesis
    using assms by (simp add: send_warning_for_message_def)
qed

lemma claimed_save_message:
  assumes "claimed db i"
  shows "claimed (fst (save_message cfg hp env cap db)) i"
proof -
  have "claimed (db @ [new_message hp env cap db]) i"
    using assms by (rule claimed_append_new)
  then show ?thesis
    using assms by (simp add: save_message_def Let_def claimed_send_warning)
qed

lemma label_body_ledger:
  "fst (snd (label_body env data db)) = db
   \<or> fst (snd (label_body env data db)) =
         map (\<lambda>m. if id_pk m = the (py_int (split_on (CHR '':'') data ! 1))
                  then m\<lparr>label := Some (split_on (CHR '':'') data ! 2),
                         labeled_at := Some (now_label env)\<rparr>
                  else m) db"
  by (simp add: label_body_def Let_def split: option.splits list.splits)

lemma handle_label_callback_ledger:
  "fst (snd (handle_label_callback env data db)) = fst (snd (label_body env data db))"
  by (simp add: handle_label_callback_def split: prod.splits option.splits)

lemma claimed_handle_label_callback:
  assumes "claimed db i"
  shows "claimed (fst (snd (handle_label_callback env data db))) i"
proof -
  have "claimed (map (\<lambda>m. if id_pk m = j then m\<lparr>label := Some l, labeled_at := Some (now_label env)\<rparr> else m) db) i"
    for j l
    using _ _ assms by (rule claimed_map) simp_all
  then show ?thesis
    using label_body_ledger [of env data db] assms
    unfolding handle_label_callback_ledger by auto
qed

lemma claimed_mark_included:
  "claimed db i \<Longrightarrow> claimed (mark_included ids now db) i"
  unfolding mark_included_def by (rule claimed_map) simp_all

lemma claimed_get_unlabeled_messages:
  assumes "get_unlabeled_messages cfg env H N db = Inr (sel, db')" and "claimed db i"
  shows "claimed db' i"
  unfolding get_unlabeled_messages_Inr(2) [OF assms(1)]
  using assms(2) by (rule claimed_mark_included)

lemma summary_body_ledger:
  "fst (snd (summary_body cfg env db)) = db
   \<or> (\<exists>sel. get_unlabeled_messages cfg env (summary_interval_hours cfg)
               (max_messages_per_summary cfg) db = Inr (sel, fst (snd (summary_body cfg env db))))"
proof (cases "get_message_stats env (summary_interval_hours cfg) db")
  case (Inl e)
  then show ?thesis by (simp add: summary_body_def Let_def)
next
  case (Inr st)
  obtain total chats where st: "st = (total, chats)" by (cases st)
  show ?thesis
  proof (cases "total = 0")
    case True
    then show ?thesis
      using Inr st by (simp add: summary_body_def Let_def send_simple_message_def)
  next
    case False
    show ?thesis
    proof (cases "get_unlabeled_messages cfg env (summary_interval_hours cfg)
                    (max_messages_per_summary cfg) db")
      case (Inl e)
      then show ?thesis
        using Inr st False by (simp add: summary_body_def Let_def)
    next
      case sel: (Inr res)
      obtain messages db' where res: "res = (messages, db')" by (cases res)
      show ?thesis
        using Inr st False sel res
        by (simp add: summary_body_def Let_def send_simple_message_def send_summary_def)
    qed
  qed
qed

lemma generate_and_send_summary_ledger:
  "fst (snd (generate_and_send_summary cfg env db)) = fst (snd (summary_body cfg env db))"
  by (simp add: generate_and_send_summary_def split: prod.splits option.splits)

lemma claimed_generate_and_send_summary:
  assumes "claimed db i"
  shows "claimed (fst (snd (generate_and_send_summary cfg env db))) i"
  using summary_body_ledger [of cfg env db] assms
    claimed_get_unlabeled_messages [of cfg env _ _ db _ "fst (snd (summary_body cfg env db))" i]
  unfolding generate_and_send_summary_ledger by auto

lemma claimed_run_operation: "claimed db i \<Longrightarrow> claimed (run_operation op db) i"
  by (cases op)
    (simp_all add: claimed_save_message claimed_handle_label_callback
      claimed_generate_and_send_summary)

lemma claimed_run_operations: "claimed db i \<Longrightarrow> claimed (run_operations ops db) i"
  unfolding run_operations_def
  by (induction ops arbitrary: db) (simp_all add: claimed_run_operation)

lemma selected_is_claimed:
  assumes "get_unlabeled_messages cfg env H N db = Inr (sel, db1)" and "m \<in> set sel"
  shows "claimed db1 (id_pk m)"
proof -
  let ?chosen = "select_unlabeled cfg (now_select env - hours_delta H) N db"
  let ?f = "\<lambda>r. if id_pk r \<in> id_pk ` set ?chosen
              then r\<lparr>included_in_summary := True, summary_sent_at := Some (now_claim env)\<rparr>
              else r"
  have sel: "sel = map (\<lambda>m. m\<lparr>included_in_summary := True,
                              summary_sent_at := Some (now_claim env)\<rparr>) ?chosen"
    using assms(1) by (rule get_unlabeled_messages_Inr)
  have db1: "db1 = map ?f db"
    using get_unlabeled_messages_Inr(2) [OF assms(1)] by (simp add: mark_included_image)
  from assms(2) obtain m0 where m0: "m0 \<in> set ?chosen"
      "m = m0\<lparr>included_in_summary := True, summary_sent_at := Some (now_claim env)\<rparr>"
    unfolding sel set_map by blast
  have id_m: "id_pk m = id_pk m0" unfolding m0(2) by simp
  have m0_db: "m0 \<in> set db"
    using m0(1) select_unlabeled_subset by blast
  have f_id: "id_pk (?f r) = id_pk r" for r by simp
  have ex: "\<exists>x \<in> set (map ?f db). id_pk x = id_pk m"
    using m0_db f_id id_m by (intro bexI [of _ "?f m0"]) simp_all
  have all: "included_in_summary x" if "x \<in> set (map ?f db)" "id_pk x = id_pk m" for x
  proof -
    from that(1) obtain y where y: "y \<in> set db" "x = ?f y"
      unfolding set_map by blast
    have "id_pk x = id_pk y" unfolding y(2) by simp
    then have "id_pk y = id_pk m0" using that(2) id_m by simp
    then have "id_pk y \<in> id_pk ` set ?chosen" using m0(1) by (simp add: image_iff) metis
    then show ?thesis unfolding y(2) by simp
  qed
  show ?thesis
    unfolding db1 claimed_iff using ex all by blast
qed

lemma claimed_not_selected:
  assumes "claimed db i" and "get_unlabeled_messages cfg env H N db = Inr (sel, db')"
  shows "i \<notin> id_pk ` set sel"
proof
  let ?chosen = "select_unlabeled cfg (now_select env - hours_delta H) N db"
  assume "i \<in> id_pk ` set sel"
  then obtain r where r: "r \<in> set sel" "id_pk r = i" by blast
  have sel: "sel = map (\<lambda>m. m\<lparr>included_in_summary := True,
                                 summary_sent_at := Some (now_claim env)\<rparr>) ?chosen"
    using assms(2) by (rule get_unlabeled_messages_Inr)
  from r(1) obtain r0 where r0: "r0 \<in> set ?chosen"
      "r = r0\<lparr>included_in_summary := True, summary_sent_at := Some (now_claim env)\<rparr>"
    unfolding sel set_map by blast
  have "id_pk r0 = i" using r(2) unfolding r0(2) by simp
  moreover have "r0 \<in> set db \<and> qualifies cfg (now_select env - hours_delta H) r0"
    using r0(1) select_unlabeled_subset by blast
  then have "r0 \<in> set db" "\<not> included_in_summary r0"
    by (simp_all add: qualifies_def)
  ultimately show False
    using assms(1) unfolding claimed_iff by blast
qed

text \<open>
  C3. A message that is digest-claimed stays so under every sequence of captures, label
  callbacks and summary runs. Hence a message that one call of
  \<open>get_unlabeled_messages\<close> returned is claimed afterwards, and whatever operations
  follow, no later call returns a row with its id, whatever its configuration, clock
  and lookback window.
\<close>

theorem claim_is_permanent:
  "(claimed db i \<longrightarrow> claimed (run_operations ops db) i)
   \<and> (get_unlabeled_messages cfg env H N db = Inr (sel, db1) \<and> m \<in> set sel
       \<and> get_unlabeled_messages cfg' env' H' N' (run_operations ops db1) = Inr (sel', db2)
      \<longrightarrow> claimed db1 (id_pk m) \<and> id_pk m \<notin> id_pk ` set sel')"
proof (intro conjI impI)
  assume "claimed db i"
  then show "claimed (run_operations ops db) i" by (rule claimed_run_operations)
next
  assume a: "get_unlabeled_messages cfg env H N db = Inr (sel, db1) \<and> m \<in> set sel
       \<and> get_unlabeled_messages cfg' env' H' N' (run_operations ops db1) = Inr (sel', db2)"
  then show "claimed db1 (id_pk m)" using selected_is_claimed by blast
  then have "claimed (run_operations ops db1) (id_pk m)" by (rule claimed_run_operations)
  then show "id_pk m \<notin> id_pk ` set sel'" using a claimed_not_selected by blast
qed

lemma run_sample_operations:
  "run_operations sample_operations sample_claimed_ledger = sample_later_ledger"
  by code_simp

lemma later_selection_sample:
  "get_unlabeled_messages sample_config sample_later_env 4 2 sample_later_ledger =
     Inr (sample_later_rows, sample_final_ledger)"
  by code_simp

lemma first_selection_sample:
  "get_unlabeled_messages sample_config sample_summary_env 4 2 sample_ledger =
     Inr (sample_claimed_rows, sample_claimed_ledger)"
  by code_simp

theorem claim_is_permanent_witness:
  "claimed sample_claimed_ledger 4
   \<and> claimed (run_operations sample_operations sample_claimed_ledger) 4
   \<and> get_unlabeled_messages sample_config sample_summary_env 4 2 sample_ledger =
       Inr (sample_claimed_rows, sample_claimed_ledger)
   \<and> (sample_message 4 3 40)\<lparr>included_in_summary := True, summary_sent_at := Some 14400000020\<rparr>
       \<in> set sample_claimed_rows
   \<and> get_unlabeled_messages sample_config sample_later_env 4 2
         (run_operations sample_operations sample_claimed_ledger) =
       Inr (sample_later_rows, sample_final_ledger)
   \<and> id_pk ((sample_message 4 3 40)\<lparr>included_in_summary := True, summary_sent_at := Some 14400000020\<rparr>)
       \<notin> id_pk ` set sample_later_rows"
proof -
  have h1: "claimed sample_claimed_ledger 4" by code_simp
  have h2: "(sample_message 4 3 40)\<lparr>included_in_summary := True, summary_sent_at := Some 14400000020\<rparr>
       \<in> set sample_claimed_rows"
    by (simp add: sample_claimed_rows_def)
  have h3: "get_unlabeled_messages sample_config sample_later_env 4 2
         (run_operations sample_operations sample_claimed_ledger) =
       Inr (sample_later_rows, sample_final_ledger)"
    unfolding run_sample_operations by (rule later_selection_sample)
  from claim_is_permanent [where db = sample_claimed_ledger and i = 4 and ops = sample_operations]
    claim_is_permanent [where ops = sample_operations and cfg = sample_config
      and env = sample_summary_env and H = 4 and N = 2 and db = sample_ledger
      and sel = sample_claimed_rows and ?db1.0 = sample_claimed_ledger
      and m = "(sample_message 4 3 40)\<lparr>included_in_summary := True, summary_sent_at := Some 14400000020\<rparr>"
      and cfg' = sample_config and env' = sample_later_env
      and H' = 4 and N' = 2 and sel' = sample_later_rows and ?db2.0 = sample_final_ledger]
    h1 h2 h3 first_selection_sample
  show ?thesis by blast
qed

lemma generate_quiet:
  assumes "get_message_stats env (summary_interval_hours cfg) db = Inr (0, unique_chats)"
  shows "generate_and_send_summary cfg env db =
     (None, db,
      Simple_message (Quiet (summary_interval_hours cfg)) #
      (if bot_present env \<and> \<not> send_ok env
       then [Logged_error Delivery_error, Simple_message (Error_notice Delivery_error)]
       else []))"
  using assms
  by (simp add: generate_and_send_summary_def summary_body_def send_simple_message_def Let_def)

lemma generate_all_clear:
  assumes "get_message_stats env (summary_interval_hours cfg) db = Inr (total_messages, unique_chats)"
    and "total_messages \<noteq> 0"
    and "get_unlabeled_messages cfg env (summary_interval_hours cfg)
           (max_messages_per_summary cfg) db = Inr ([], db1)"
  shows "generate_and_send_summary cfg env db =
     (None, db1,
      Simple_message (All_clear (summary_interval_hours cfg) total_messages) #
      (if bot_present env \<and> \<not> send_ok env
       then [Logged_error Delivery_error, Simple_message (Error_notice Delivery_error)]
       else []))"
  using assms
  by (simp add: generate_and_send_summary_def summary_body_def send_simple_message_def Let_def)

lemma generate_delivery_failure:
  assumes "get_message_stats env (summary_interval_hours cfg) db = Inr (total_messages, unique_chats)"
    and "total_messages \<noteq> 0"
    and "get_unlabeled_messages cfg env (summary_interval_hours cfg)
           (max_messages_per_summary cfg) db = Inr (sel, db1)"
    and "sel \<noteq> []"
    and "\<not> bot_present env \<or> \<not> send_ok env"
  shows "generate_and_send_summary cfg env db =
     (None, db1,
      [Summary_called sel total_messages unique_chats (summary_interval_hours cfg),
       Logged_error Delivery_error, Simple_message (Error_notice Delivery_error)])"
  using assms
  by (auto simp add: generate_and_send_summary_def summary_body_def send_summary_def Let_def)

text \<open>
  C6. Let the count queries of a run give the total \<open>total_messages\<close>. If it is zero, the run
  calls \<open>send_simple_message\<close> with the quiet text, never reaches the selection and
  leaves the ledger as it was. If it is not zero and the selection returns no row, the
  run calls \<open>send_simple_message\<close> with the all-clear text, which carries the total, and
  the ledger is again unchanged. When that send fails the failure is logged and an
  error notice is tried.
\<close>

theorem summary_signals:
  assumes "get_message_stats env (summary_interval_hours cfg) db = Inr (total_messages, unique_chats)"
  shows "(total_messages = 0 \<longrightarrow>
            generate_and_send_summary cfg env db =
              (None, db,
               Simple_message (Quiet (summary_interval_hours cfg)) #
               (if bot_present env \<and> \<not> send_ok env
                then [Logged_error Delivery_error, Simple_message (Error_notice Delivery_error)]
                else [])))
       \<and> (total_messages \<noteq> 0
           \<and> get_unlabeled_messages cfg env (summary_interval_hours cfg)
                (max_messages_per_summary cfg) db = Inr ([], db1) \<longrightarrow>
            db1 = db
            \<and> generate_and_send_summary cfg env db =
              (None, db,
               Simple_message (All_clear (summary_interval_hours cfg) total_messages) #
               (if bot_present env \<and> \<not> send_ok env
                then [Logged_error Delivery_error, Simple_message (Error_notice Delivery_error)]
                else [])))"
proof (intro conjI impI)
  assume "total_messages = 0"
  then show "generate_and_send_summary cfg env db =
              (None, db,
               Simple_message (Quiet (summary_interval_hours cfg)) #
               (if bot_present env \<and> \<not> send_ok env
                then [Logged_error Delivery_error, Simple_message (Error_notice Delivery_error)]
                else []))"
    using assms generate_quiet by blast
next
  assume a: "total_messages \<noteq> 0
           \<and> get_unlabeled_messages cfg env (summary_interval_hours cfg)
                (max_messages_per_summary cfg) db = Inr ([], db1)"
  then show "db1 = db"
    using get_unlabeled_messages_empty by blast
  with a show "generate_and_send_summary cfg env db =
              (None, db,
               Simple_message (All_clear (summary_interval_hours cfg) total_messages) #
               (if bot_present env \<and> \<not> send_ok env
                then [Logged_error Delivery_error, Simple_message (Error_notice Delivery_error)]
                else []))"
    using assms generate_all_clear by blast
qed

lemma stats_old_sample:
  "get_message_stats sample_summary_env (summary_interval_hours sample_config) sample_old_ledger
     = Inr (0, 0)"
  by code_simp

lemma stats_settled_sample:
  "get_message_stats sample_summary_env (summary_interval_hours sample_config) sample_settled_ledger
     = Inr (2, 1)"
  by code_simp

lemma selection_settled_sample:
  "get_unlabeled_messages sample_config sample_summary_env (summary_interval_hours sample_config)
     (max_messages_per_summary sample_config) sample_settled_ledger = Inr ([], sample_settled_ledger)"
  by code_simp

theorem summary_signals_witness:
  "get_message_stats sample_summary_env (summary_interval_hours sample_config) sample_old_ledger
     = Inr (0, 0)
   \<and> generate_and_send_summary sample_config sample_summary_env sample_old_ledger =
       (None, sample_old_ledger, [Simple_message (Quiet 4)])
   \<and> get_message_stats sample_summary_env (summary_interval_hours sample_config) sample_settled_ledger
     = Inr (2, 1)
   \<and> get_unlabeled_messages sample_config sample_summary_env (summary_interval_hours sample_config)
       (max_messages_per_summary sample_config) sample_settled_ledger = Inr ([], sample_settled_ledger)
   \<and> generate_and_send_summary sample_config sample_summary_env sample_settled_ledger =
       (None, sample_settled_ledger, [Simple_message (All_clear 4 2)])"
proof -
  have e: "bot_present sample_summary_env" "send_ok sample_summary_env"
    "summary_interval_hours sample_config = 4"
    by (simp_all add: sample_summary_env_def sample_config_def)
  from summary_signals [OF stats_old_sample] summary_signals [OF stats_settled_sample,
      where ?db1.0 = sample_settled_ledger] stats_old_sample stats_settled_sample
    selection_settled_sample e
  show ?thesis by simp
qed

text \<open>
  C7. Take a run whose counts are not zero, whose selection returned and claimed the
  non-empty list \<open>sel\<close>, and whose delivery fails (no bot application, or a
  \<open>bot.send_message\<close> that raises). Then the run ends without an exception: the failure
  is logged and an error notice is tried. The ledger it leaves is the one the selection
  committed, in which every selected message is claimed; and after any further
  operations no later selection returns a row with the id of one of them.
\<close>

theorem delivery_failure_keeps_claims:
  assumes "get_message_stats env (summary_interval_hours cfg) db = Inr (total_messages, unique_chats)"
    and "total_messages \<noteq> 0"
    and "get_unlabeled_messages cfg env (summary_interval_hours cfg)
           (max_messages_per_summary cfg) db = Inr (sel, db1)"
    and "sel \<noteq> []"
    and "\<not> bot_present env \<or> \<not> send_ok env"
  shows "generate_and_send_summary cfg env db =
           (None, db1,
            [Summary_called sel total_messages unique_chats (summary_interval_hours cfg),
             Logged_error Delivery_error, Simple_message (Error_notice Delivery_error)])
       \<and> (\<forall>m \<in> set sel. claimed db1 (id_pk m))
       \<and> (\<forall>m \<in> set sel. \<forall>sel' db2.
             get_unlabeled_messages cfg' env' H' N' (run_operations ops db1) = Inr (sel', db2)
             \<longrightarrow> id_pk m \<notin> id_pk ` set sel')"
proof (intro conjI ballI allI impI)
  show "generate_and_send_summary cfg env db =
           (None, db1,
            [Summary_called sel total_messages unique_chats (summary_interval_hours cfg),
             Logged_error Delivery_error, Simple_message (Error_notice Delivery_error)])"
    using assms by (rule generate_delivery_failure)
next
  fix m assume "m \<in> set sel"
  then show "claimed db1 (id_pk m)"
    using assms(3) selected_is_claimed by blast
next
  fix m sel' db2
  assume m: "m \<in> set sel"
    and later: "get_unlabeled_messages cfg' env' H' N' (run_operations ops db1) = Inr (sel', db2)"
  have "claimed db1 (id_pk m)"
    using m assms(3) selected_is_claimed by blast
  then have "claimed (run_operations ops db1) (id_pk m)"
    by (rule claimed_run_operations)
  then show "id_pk m \<notin> id_pk ` set sel'"
    using later by (rule claimed_not_selected)
qed

lemma stats_sample:
  "get_message_stats sample_failing_env (summary_interval_hours sample_config) sample_ledger
     = Inr (4, 1)"
  by code_simp

lemma failing_selection_sample:
  "get_unlabeled_messages sample_config sample_failing_env (summary_interval_hours sample_config)
     (max_messages_per_summary sample_config) sample_ledger
     = Inr (sample_claimed_rows, sample_claimed_ledger)"
  by code_simp

theorem delivery_failure_keeps_claims_witness:
  "get_message_stats sample_failing_env (summary_interval_hours sample_config) sample_ledger
     = Inr (4, 1)
   \<and> get_unlabeled_messages sample_config sample_failing_env (summary_interval_hours sample_config)
       (max_messages_per_summary sample_config) sample_ledger
     = Inr (sample_claimed_rows, sample_claimed_ledger)
   \<and> \<not> send_ok sample_failing_env
   \<and> generate_and_send_summary sample_config sample_failing_env sample_ledger =
       (None, sample_claimed_ledger,
        [Summary_called sample_claimed_rows 4 1 4,
         Logged_error Delivery_error, Simple_message (Error_notice Delivery_error)])
   \<and> (sample_message 3 5 15)\<lparr>included_in_summary := True, summary_sent_at := Some 14400000020\<rparr>
       \<in> set sample_claimed_rows
   \<and> claimed sample_claimed_ledger
       (id_pk ((sample_message 3 5 15)\<lparr>included_in_summary := True, summary_sent_at := Some 14400000020\<rparr>))
   \<and> get_unlabeled_messages sample_config sample_later_env 4 2
         (run_operations sample_operations sample_claimed_ledger) =
       Inr (sample_later_rows, sample_final_ledger)
   \<and> id_pk ((sample_message 3 5 15)\<lparr>included_in_summary := True, summary_sent_at := Some 14400000020\<rparr>)
       \<notin> id_pk ` set sample_later_rows"
proof -
  have f: "\<not> bot_present sample_failing_env \<or> \<not> send_ok sample_failing_env"
    and f': "\<not> send_ok sample_failing_env"
    by (simp_all add: sample_failing_env_def)
  have h: "summary_interval_hours sample_config = 4"
    by (simp add: sample_config_def)
  have later: "get_unlabeled_messages sample_config sample_later_env 4 2
         (run_operations sample_operations sample_claimed_ledger) =
       Inr (sample_later_rows, sample_final_ledger)"
    unfolding run_sample_operations by (rule later_selection_sample)
  have ne: "sample_claimed_rows \<noteq> []" "(4::int) \<noteq> 0"
    by (simp_all add: sample_claimed_rows_def)
  have mem: "(sample_message 3 5 15)\<lparr>included_in_summary := True, summary_sent_at := Some 14400000020\<rparr>
       \<in> set sample_claimed_rows"
    by (simp add: sample_claimed_rows_def)
  note run = delivery_failure_keeps_claims [OF stats_sample ne(2) failing_selection_sample ne(1) f,
      where cfg' = sample_config and env' = sample_later_env and H' = 4 and N' = 2
        and ops = sample_operations]
  have g: "generate_and_send_summary sample_config sample_failing_env sample_ledger =
       (None, sample_claimed_ledger,
        [Summary_called sample_claimed_rows 4 1 4,
         Logged_error Delivery_error, Simple_message (Error_notice Delivery_error)])"
    using run unfolding h by blast
  have c1: "claimed sample_claimed_ledger
       (id_pk ((sample_message 3 5 15)\<lparr>included_in_summary := True, summary_sent_at := Some 14400000020\<rparr>))"
    using run mem by blast
  have c2: "id_pk ((sample_message 3 5 15)\<lparr>included_in_summary := True, summary_sent_at := Some 14400000020\<rparr>)
       \<notin> id_pk ` set sample_later_rows"
    using run mem later by blast
  from stats_sample failing_selection_sample f' g mem c1 later c2
  show ?thesis by (intro conjI)
qed

end
